theory Spec2Isabelle
  imports Main
begin

section \<open>Data model\<close>

text \<open>
  A resource handle (\<^verbatim>\<open>void *\<close>) and a release function (\<^verbatim>\<open>lt_destroy_t\<close>, a function
  pointer) are addresses; address 0 is \<^verbatim>\<open>NULL\<close>. Comparing two handles compares addresses,
  which is the identity test of the C code.
\<close>

type_synonym ptr = nat

type_synonym lt_destroy_t = nat

abbreviation NULL :: ptr where
  "NULL \<equiv> 0"

text \<open>\<^verbatim>\<open>struct lt_slot_t { void *resource; lt_destroy_t resource_destroy; }\<close>\<close>

record lt_slot_t =
  resource :: ptr
  resource_destroy :: lt_destroy_t

text \<open>
  What the code does to its environment, in the order it does it: a call of a release
  function on a handle, a call of a resource constructor, \<^verbatim>\<open>free\<close> of bookkeeping storage,
  and a line printed with \<^verbatim>\<open>printf\<close>.
\<close>

datatype event =
    Call lt_destroy_t ptr
  | Construct string
  | Free ptr
  | Printf string

text \<open>
  \<open>Abort\<close> is a failed \<^verbatim>\<open>assert\<close>; \<open>Undefined\<close> is a read through a pointer that does not
  point to a live object, or a call through a null function pointer.
\<close>

datatype fault = Abort | Undefined

datatype Game_state =
    GAME_STATE_RUNNING
  | GAME_STATE_PAUSE
  | GAME_STATE_CONSOLE
  | GAME_STATE_LEVEL_PICKER
  | GAME_STATE_QUIT

record Game =
  lt :: ptr
  state :: Game_state
  broadcast :: ptr
  font :: ptr
  level_picker :: ptr
  level :: ptr
  sound_samples :: ptr
  camera :: ptr
  console :: ptr
  renderer :: ptr
  texture_cursor :: ptr
  cursor_x :: int
  cursor_y :: int

text \<open>
  The state of the program: the live Slot objects and the live Lifetime objects by address
  (a Lifetime is the sequence of its Slot pointers in insertion order), the Game objects,
  the events so far (oldest first), and the results the allocator will give to the coming
  \<^verbatim>\<open>malloc\<close> calls (\<open>NULL\<close> is an allocation failure; an exhausted list fails too).
\<close>

record world =
  slots :: "ptr \<Rightarrow> lt_slot_t option"
  lts :: "ptr \<Rightarrow> ptr list option"
  games :: "ptr \<Rightarrow> Game option"
  trace :: "event list"
  mallocs :: "ptr list"

definition malloc :: "world \<Rightarrow> ptr \<times> world" where
  "malloc w = (case mallocs w of [] \<Rightarrow> (NULL, w) | p # ps \<Rightarrow> (p, w\<lparr>mallocs := ps\<rparr>))"

text \<open>
  A release function is opaque to the tracker: calling it is recorded, and it does not touch
  the tracker's own objects. A call through a null function pointer is undefined.
\<close>

definition call :: "lt_destroy_t \<Rightarrow> ptr \<Rightarrow> world \<Rightarrow> fault + world" where
  "call f r w = (if f = NULL then Inl Undefined else Inr (w\<lparr>trace := trace w @ [Call f r]\<rparr>))"

text \<open>The release calls of a trace, in order, as (function, handle) pairs.\<close>

fun calls :: "event list \<Rightarrow> (lt_destroy_t \<times> ptr) list" where
  "calls [] = []"
| "calls (Call f r # es) = (f, r) # calls es"
| "calls (e # es) = calls es"

section \<open>Slot\<close>

text \<open>
  The four functions of the Slot's source file, statement by statement. Each \<^verbatim>\<open>assert\<close> is
  taken as compiled in: a null argument aborts before anything else happens. A Slot pointer
  that is not null is then read, which is undefined unless it points to a live Slot.
\<close>

definition create_lt_slot :: "ptr \<Rightarrow> lt_destroy_t \<Rightarrow> world \<Rightarrow> fault + (ptr \<times> world)" where
  "create_lt_slot res res_destroy w =
     (if res = NULL then Inl Abort
      else if res_destroy = NULL then Inl Abort
      else case malloc w of (lt_slot, w1) \<Rightarrow>
        if lt_slot = NULL then Inr (NULL, w1)
        else Inr (lt_slot,
               w1\<lparr>slots := (slots w1)(lt_slot \<mapsto> \<lparr>resource = res, resource_destroy = res_destroy\<rparr>),
                  trace := trace w1 @ [Printf ''LT: created slot\<newline>'']\<rparr>))"

definition destroy_lt_slot :: "ptr \<Rightarrow> world \<Rightarrow> fault + world" where
  "destroy_lt_slot lt_slot w =
     (if lt_slot = NULL then Inl Abort
      else case slots w lt_slot of
        None \<Rightarrow> Inl Undefined
      | Some s \<Rightarrow>
          (case call (resource_destroy s) (resource s) w of
             Inl e \<Rightarrow> Inl e
           | Inr w1 \<Rightarrow>
               Inr (w1\<lparr>slots := (slots w1)(lt_slot := None),
                       trace := trace w1 @ [Free lt_slot, Printf ''LT: remove slot\<newline>'']\<rparr>)))"

definition lt_slot_reset_resource :: "ptr \<Rightarrow> ptr \<Rightarrow> world \<Rightarrow> fault + world" where
  "lt_slot_reset_resource lt_slot res w =
     (if lt_slot = NULL then Inl Abort
      else if res = NULL then Inl Abort
      else case slots w lt_slot of
        None \<Rightarrow> Inl Undefined
      | Some s \<Rightarrow>
          (case call (resource_destroy s) (resource s) w of
             Inl e \<Rightarrow> Inl e
           | Inr w1 \<Rightarrow> Inr (w1\<lparr>slots := (slots w1)(lt_slot \<mapsto> s\<lparr>resource := res\<rparr>)\<rparr>)))"

definition lt_slot_contains_resource :: "ptr \<Rightarrow> ptr \<Rightarrow> world \<Rightarrow> fault + int" where
  "lt_slot_contains_resource lt_slot res w =
     (if lt_slot = NULL then Inl Abort
      else if res = NULL then Inl Abort
      else case slots w lt_slot of
        None \<Rightarrow> Inl Undefined
      | Some s \<Rightarrow> Inr (if resource s = res then 1 else 0))"

section \<open>Lifetime\<close>

text \<open>
  Modelled from the spec: \<open>create_lt\<close>, the Lifetime's \<^verbatim>\<open>create()\<close>, whose source file
  (\<^verbatim>\<open>system/lt.c\<close>) is not part of the sources at hand. It gives a new, empty Lifetime, or
  the allocation-failure signal \<open>NULL\<close>.
\<close>

definition create_lt :: "world \<Rightarrow> ptr \<times> world" where
  "create_lt w =
     (case malloc w of (l, w1) \<Rightarrow>
        if l = NULL then (NULL, w1) else (l, w1\<lparr>lts := (lts w1)(l \<mapsto> [])\<rparr>))"

text \<open>
  Modelled from the spec: \<open>lt_push\<close>, the Lifetime's \<^verbatim>\<open>track(lifetime, resource, release)\<close>
  (\<^verbatim>\<open>system/lt.c\<close> is missing). It registers the resource as a new Slot appended to the
  sequence and returns the resource unchanged; if registering the Slot fails, the release
  function is called on the resource at once and the failure signal is returned. The
  failure sentinel of a constructor is propagated upward without anything being
  registered, which is what every \<^verbatim>\<open>PUSH_LT\<close> call site of \<^verbatim>\<open>game.c\<close> relies on. Operating on
  a Lifetime that is not live is undefined.
\<close>

definition lt_push :: "ptr \<Rightarrow> ptr \<Rightarrow> lt_destroy_t \<Rightarrow> world \<Rightarrow> fault + (ptr \<times> world)" where
  "lt_push l res res_destroy w =
     (case lts w l of
        None \<Rightarrow> Inl Undefined
      | Some frames \<Rightarrow>
          if res = NULL then Inr (NULL, w)
          else (case create_lt_slot res res_destroy w of
                  Inl e \<Rightarrow> Inl e
                | Inr (lt_slot, w1) \<Rightarrow>
                    if lt_slot = NULL
                    then (case call res_destroy res w1 of
                            Inl e \<Rightarrow> Inl e
                          | Inr w2 \<Rightarrow> Inr (NULL, w2))
                    else Inr (res, w1\<lparr>lts := (lts w1)(l \<mapsto> frames @ [lt_slot])\<rparr>)))"

text \<open>
  Modelled from the spec: \<open>destroy_lt\<close>, the Lifetime's \<^verbatim>\<open>destroy(lifetime)\<close>
  (\<^verbatim>\<open>system/lt.c\<close> is missing). It destroys every remaining Slot in reverse order of
  insertion, with \<open>destroy_lt_slot\<close> of the source, then frees the Lifetime's own
  bookkeeping.
\<close>

fun destroy_slots :: "ptr list \<Rightarrow> world \<Rightarrow> fault + world" where
  "destroy_slots [] w = Inr w"
| "destroy_slots (p # ps) w =
     (case destroy_lt_slot p w of
        Inl e \<Rightarrow> Inl e
      | Inr w1 \<Rightarrow> destroy_slots ps w1)"

definition destroy_lt :: "ptr \<Rightarrow> world \<Rightarrow> fault + world" where
  "destroy_lt l w =
     (case lts w l of
        None \<Rightarrow> Inl Undefined
      | Some frames \<Rightarrow>
          (case destroy_slots (rev frames) w of
             Inl e \<Rightarrow> Inl e
           | Inr w1 \<Rightarrow> Inr (w1\<lparr>lts := (lts w1)(l := None), trace := trace w1 @ [Free l]\<rparr>)))"

text \<open>
  A resource constructor is opaque too: it is named, and it produces a handle or the
  failure sentinel \<open>NULL\<close>; invoking it is recorded, and it registers nothing with any
  Lifetime itself.
\<close>

type_synonym constructor = "string \<times> ptr"

definition invoke :: "constructor \<Rightarrow> world \<Rightarrow> ptr \<times> world" where
  "invoke c w = (snd c, w\<lparr>trace := trace w @ [Construct (fst c)]\<rparr>)"

text \<open>
  Modelled from the spec: \<open>lt_reset\<close>, the Lifetime's
  \<^verbatim>\<open>reset(lifetime, resource, constructor)\<close> (\<^verbatim>\<open>system/lt.c\<close> is missing). It locates the
  Slot that owns the resource by a linear scan with \<open>lt_slot_contains_resource\<close> of the
  source; if one is found it releases the old resource, invokes the constructor and stores
  the new resource in the same Slot; it returns the new resource, or the failure signal
  when no Slot owns the resource or the constructor fails. The spec leaves open what the
  Slot holds after a failed constructor; here it keeps the handle already released.
\<close>

fun find_slot :: "ptr list \<Rightarrow> ptr \<Rightarrow> world \<Rightarrow> fault + ptr option" where
  "find_slot [] res w = Inr None"
| "find_slot (p # ps) res w =
     (case lt_slot_contains_resource p res w of
        Inl e \<Rightarrow> Inl e
      | Inr b \<Rightarrow> if b \<noteq> 0 then Inr (Some p) else find_slot ps res w)"

definition lt_reset :: "ptr \<Rightarrow> ptr \<Rightarrow> constructor \<Rightarrow> world \<Rightarrow> fault + (ptr \<times> world)" where
  "lt_reset l res c w =
     (case lts w l of
        None \<Rightarrow> Inl Undefined
      | Some frames \<Rightarrow>
          (case find_slot frames res w of
             Inl e \<Rightarrow> Inl e
           | Inr None \<Rightarrow> Inr (NULL, w)
           | Inr (Some lt_slot) \<Rightarrow>
               (case slots w lt_slot of
                  None \<Rightarrow> Inl Undefined
                | Some s \<Rightarrow>
                    (case call (resource_destroy s) (resource s) w of
                       Inl e \<Rightarrow> Inl e
                     | Inr w1 \<Rightarrow>
                         (case invoke c w1 of (new, w2) \<Rightarrow>
                            if new = NULL then Inr (NULL, w2)
                            else Inr (new,
                                   w2\<lparr>slots := (slots w2)(lt_slot \<mapsto> s\<lparr>resource := new\<rparr>)\<rparr>))))))"

text \<open>
  A run of \<open>track\<close> calls on one Lifetime, in order, collecting what each call returned;
  a fault ends the run.
\<close>

fun track_all :: "ptr \<Rightarrow> (ptr \<times> lt_destroy_t) list \<Rightarrow> world \<Rightarrow> fault + (ptr list \<times> world)" where
  "track_all l [] w = Inr ([], w)"
| "track_all l ((res, res_destroy) # rs) w =
     (case lt_push l res res_destroy w of
        Inl e \<Rightarrow> Inl e
      | Inr (h, w1) \<Rightarrow>
          (case track_all l rs w1 of
             Inl e \<Rightarrow> Inl e
           | Inr (hs, w2) \<Rightarrow> Inr (h # hs, w2)))"

text \<open>
  What destroying the Slots \<open>ps\<close> would release, in the order of \<open>ps\<close>: the
  (function, handle) pair of each live Slot. \<open>pending\<close> is that list for the Slots of a
  Lifetime, oldest Slot first.
\<close>

fun slot_calls :: "world \<Rightarrow> ptr list \<Rightarrow> (lt_destroy_t \<times> ptr) list" where
  "slot_calls w [] = []"
| "slot_calls w (p # ps) =
     (case slots w p of
        None \<Rightarrow> slot_calls w ps
      | Some s \<Rightarrow> (resource_destroy s, resource s) # slot_calls w ps)"

definition pending :: "world \<Rightarrow> ptr \<Rightarrow> (lt_destroy_t \<times> ptr) list" where
  "pending w l = (case lts w l of None \<Rightarrow> [] | Some frames \<Rightarrow> slot_calls w frames)"

text \<open>
  The allocator never hands out an address that is still live, nor the same address twice
  without a \<^verbatim>\<open>free\<close> in between.
\<close>

definition malloc_ok :: "world \<Rightarrow> bool" where
  "malloc_ok w \<longleftrightarrow>
     distinct (filter (\<lambda>p. p \<noteq> NULL) (mallocs w)) \<and>
     (\<forall>p \<in> set (mallocs w). p \<noteq> NULL \<longrightarrow> slots w p = None \<and> lts w p = None)"

text \<open>
  A live Slot: a non-null pointer to a Slot object that has a release function. A Lifetime
  in good order is live, and its Slot pointers are distinct and point to live Slots.
\<close>

definition live :: "world \<Rightarrow> ptr \<Rightarrow> bool" where
  "live w p \<longleftrightarrow>
     p \<noteq> NULL \<and> (case slots w p of None \<Rightarrow> False | Some s \<Rightarrow> resource_destroy s \<noteq> NULL)"

definition lt_ok :: "world \<Rightarrow> ptr \<Rightarrow> bool" where
  "lt_ok w l \<longleftrightarrow>
     (case lts w l of
        None \<Rightarrow> False
      | Some frames \<Rightarrow> distinct frames \<and> (\<forall>p \<in> set frames. live w p))"

section \<open>The game object\<close>

text \<open>
  The release functions that \<^verbatim>\<open>create_game\<close> registers are addresses of functions: non-null.
\<close>

definition free_fn :: lt_destroy_t where "free_fn = 1"
definition destroy_broadcast_fn :: lt_destroy_t where "destroy_broadcast_fn = 2"
definition destroy_sprite_font_fn :: lt_destroy_t where "destroy_sprite_font_fn = 3"
definition destroy_level_picker_fn :: lt_destroy_t where "destroy_level_picker_fn = 4"
definition destroy_sound_samples_fn :: lt_destroy_t where "destroy_sound_samples_fn = 5"
definition destroy_camera_fn :: lt_destroy_t where "destroy_camera_fn = 6"
definition destroy_console_fn :: lt_destroy_t where "destroy_console_fn = 7"
definition SDL_DestroyTexture_fn :: lt_destroy_t where "SDL_DestroyTexture_fn = 8"

text \<open>
  What the constructors called by \<^verbatim>\<open>create_game\<close> produce (\<open>NULL\<close> when one fails), and
  the indeterminate contents of the storage that \<^verbatim>\<open>nth_alloc\<close> returns for the Game.
\<close>

record acquisitions =
  nth_alloc_Game :: ptr
  create_broadcast :: ptr
  create_sprite_font_from_file :: ptr
  create_level_picker :: ptr
  create_sound_samples :: ptr
  create_camera :: ptr
  create_console :: ptr
  texture_from_bmp :: ptr
  fresh_Game :: Game

text \<open>
  Modelled from the spec: the macros \<^verbatim>\<open>PUSH_LT\<close> and \<^verbatim>\<open>RETURN_LT\<close> of \<^verbatim>\<open>system/lt.h\<close>, which
  is missing. \<^verbatim>\<open>PUSH_LT\<close> is \<open>track\<close>; \<^verbatim>\<open>RETURN_LT(lt, x)\<close> abandons a partially built
  chain: it destroys the Lifetime and returns \<open>x\<close>.
\<close>

definition PUSH_LT :: "ptr \<Rightarrow> ptr \<Rightarrow> lt_destroy_t \<Rightarrow> world \<Rightarrow> fault + (ptr \<times> world)" where
  "PUSH_LT l res res_destroy w = lt_push l res res_destroy w"

definition RETURN_LT :: "ptr \<Rightarrow> ptr \<Rightarrow> world \<Rightarrow> fault + (ptr \<times> world)" where
  "RETURN_LT l result w =
     (case destroy_lt l w of
        Inl e \<Rightarrow> Inl e
      | Inr w1 \<Rightarrow> Inr (result, w1))"

text \<open>
  The step that \<^verbatim>\<open>create_game\<close> repeats:
  \<^verbatim>\<open>x = PUSH_LT(lt, constructor(...), destructor); if (x == NULL) { RETURN_LT(lt, NULL); }\<close>
  followed by the rest of the function, \<open>k\<close>. The assignment to \<^verbatim>\<open>x\<close> is \<open>store\<close>; it is
  made before the check.
\<close>

definition acquire ::
  "ptr \<Rightarrow> constructor \<Rightarrow> lt_destroy_t \<Rightarrow> (ptr \<Rightarrow> world \<Rightarrow> world) \<Rightarrow> world \<Rightarrow>
   (ptr \<Rightarrow> world \<Rightarrow> fault + (ptr \<times> world)) \<Rightarrow> fault + (ptr \<times> world)" where
  "acquire l c res_destroy store w k =
     (case invoke c w of (res, w1) \<Rightarrow>
        (case PUSH_LT l res res_destroy w1 of
           Inl e \<Rightarrow> Inl e
         | Inr (h, w2) \<Rightarrow>
             let w3 = store h w2 in
             if h = NULL then RETURN_LT l NULL w3 else k h w3))"

text \<open>A write to fields of the Game object at \<open>game\<close>.\<close>

definition set_game :: "ptr \<Rightarrow> (Game \<Rightarrow> Game) \<Rightarrow> world \<Rightarrow> world" where
  "set_game game f w = w\<lparr>games := (games w)(game := map_option f (games w game))\<rparr>"

text \<open>
  \<^verbatim>\<open>create_game\<close> of \<^verbatim>\<open>game.c\<close>. The first acquisition is the Game object itself, kept in
  the local variable \<^verbatim>\<open>game\<close>; the storage that \<^verbatim>\<open>nth_alloc\<close> returned holds
  \<open>fresh_Game env\<close> until the fields are written. The last acquisition, the cursor
  texture, is stored and not checked.
\<close>

definition create_game ::
  "acquisitions \<Rightarrow> ptr \<Rightarrow> ptr \<Rightarrow> nat \<Rightarrow> ptr \<Rightarrow> world \<Rightarrow> fault + (ptr \<times> world)" where
  "create_game env level_folder sound_sample_files sound_sample_files_count rend w =
     (if level_folder = NULL then Inl Abort
      else case create_lt w of (l, w) \<Rightarrow>
        if l = NULL then Inr (NULL, w)
        else
          acquire l (''nth_alloc'', nth_alloc_Game env) free_fn (\<lambda>game w. w) w (\<lambda>game w.
          let w = w\<lparr>games := (games w)(game \<mapsto>
                      (fresh_Game env)\<lparr>lt := l, state := GAME_STATE_LEVEL_PICKER\<rparr>)\<rparr> in
          acquire l (''create_broadcast'', create_broadcast env) destroy_broadcast_fn
            (\<lambda>h. set_game game (\<lambda>G. G\<lparr>broadcast := h\<rparr>)) w (\<lambda>h w.
          acquire l (''create_sprite_font_from_file'', create_sprite_font_from_file env)
            destroy_sprite_font_fn
            (\<lambda>h. set_game game (\<lambda>G. G\<lparr>font := h\<rparr>)) w (\<lambda>h w.
          acquire l (''create_level_picker'', create_level_picker env) destroy_level_picker_fn
            (\<lambda>h. set_game game (\<lambda>G. G\<lparr>level_picker := h\<rparr>)) w (\<lambda>h w.
          let w = set_game game (\<lambda>G. G\<lparr>level := NULL\<rparr>) w in
          acquire l (''create_sound_samples'', create_sound_samples env) destroy_sound_samples_fn
            (\<lambda>h. set_game game (\<lambda>G. G\<lparr>sound_samples := h\<rparr>)) w (\<lambda>h w.
          acquire l (''create_camera'', create_camera env) destroy_camera_fn
            (\<lambda>h. set_game game (\<lambda>G. G\<lparr>camera := h\<rparr>)) w (\<lambda>h w.
          acquire l (''create_console'', create_console env) destroy_console_fn
            (\<lambda>h. set_game game (\<lambda>G. G\<lparr>console := h\<rparr>)) w (\<lambda>h w.
          let w = set_game game (\<lambda>G. G\<lparr>renderer := rend\<rparr>) w in
          (case invoke (''texture_from_bmp'', texture_from_bmp env) w of (res, w) \<Rightarrow>
             (case PUSH_LT l res SDL_DestroyTexture_fn w of
                Inl e \<Rightarrow> Inl e
              | Inr (h, w) \<Rightarrow>
                  Inr (game,
                       set_game game (\<lambda>G. G\<lparr>cursor_x := 0, cursor_y := 0\<rparr>)
                         (set_game game (\<lambda>G. G\<lparr>texture_cursor := h\<rparr>) w))))))))))))"

text \<open>
  Every constructor result in \<open>rs\<close> is a handle and gets a Slot from the allocator results
  \<open>ms\<close>, one after the other.
\<close>

fun all_acquired :: "ptr list \<Rightarrow> ptr list \<Rightarrow> bool" where
  "all_acquired [] ms = True"
| "all_acquired (r # rs) [] = False"
| "all_acquired (r # rs) (m # ms) = (r \<noteq> NULL \<and> m \<noteq> NULL \<and> all_acquired rs ms)"

text \<open>
  The Lifetime of \<^verbatim>\<open>create_game\<close> is created, and each of the seven acquisitions that are
  checked succeeds. The cursor texture has no part in it.
\<close>

definition checked_acquisitions_succeed :: "acquisitions \<Rightarrow> world \<Rightarrow> bool" where
  "checked_acquisitions_succeed env w =
     (case mallocs w of
        [] \<Rightarrow> False
      | m # ms \<Rightarrow>
          m \<noteq> NULL \<and>
          all_acquired
            [nth_alloc_Game env, create_broadcast env, create_sprite_font_from_file env,
             create_level_picker env, create_sound_samples env, create_camera env,
             create_console env] ms)"

text \<open>
  A Lifetime \<open>l\<close> under construction on top of the world \<open>w0\<close>: in good order, new to
  \<open>w0\<close>, with Slots that are new to \<open>w0\<close>, and nothing else of \<open>w0\<close> touched.
\<close>

definition building :: "world \<Rightarrow> ptr \<Rightarrow> world \<Rightarrow> bool" where
  "building w0 l w \<longleftrightarrow>
     lt_ok w l \<and> lts w0 l = None \<and> (\<forall>q. q \<noteq> l \<longrightarrow> lts w q = lts w0 q) \<and>
     (case lts w l of
        None \<Rightarrow> False
      | Some frames \<Rightarrow>
          (\<forall>p \<in> set frames. slots w0 p = None) \<and>
          (\<forall>q. q \<notin> set frames \<longrightarrow> slots w q = slots w0 q))"

text \<open>
  A call that gave up: it returned \<open>NULL\<close> and left no Slot and no Lifetime behind that
  \<open>w0\<close> did not have. \<open>stage\<close> is a point of the construction from which some checked
  acquisition among \<open>rs\<close> is going to fail.
\<close>

definition abandoned :: "world \<Rightarrow> fault + (ptr \<times> world) \<Rightarrow> bool" where
  "abandoned w0 r \<longleftrightarrow> (\<exists>w'. r = Inr (NULL, w') \<and> slots w' = slots w0 \<and> lts w' = lts w0)"

definition stage :: "world \<Rightarrow> ptr \<Rightarrow> ptr list \<Rightarrow> world \<Rightarrow> bool" where
  "stage w0 l rs w \<longleftrightarrow> building w0 l w \<and> malloc_ok w \<and> \<not> all_acquired rs (mallocs w)"

section \<open>Sample worlds\<close>

text \<open>
  A world whose allocator has nothing left to give; a world with one Lifetime (at 20)
  holding one Slot; the same with two Slots; and a world with an empty Lifetime and three
  allocations to come.
\<close>

definition oom_world :: world where
  "oom_world = \<lparr>slots = Map.empty, lts = Map.empty, games = Map.empty, trace = [], mallocs = []\<rparr>"

definition one_slot_world :: world where
  "one_slot_world =
     \<lparr>slots = [10 \<mapsto> \<lparr>resource = 5, resource_destroy = 7\<rparr>], lts = [20 \<mapsto> [10]],
      games = Map.empty, trace = [], mallocs = [11, 12]\<rparr>"

definition two_slot_world :: world where
  "two_slot_world =
     \<lparr>slots = [10 \<mapsto> \<lparr>resource = 5, resource_destroy = 7\<rparr>,
               11 \<mapsto> \<lparr>resource = 6, resource_destroy = 8\<rparr>],
      lts = [20 \<mapsto> [10, 11]], games = Map.empty, trace = [], mallocs = [12]\<rparr>"

definition empty_lt_world :: world where
  "empty_lt_world =
     \<lparr>slots = Map.empty, lts = [20 \<mapsto> []], games = Map.empty, trace = [],
      mallocs = [10, 11, 12]\<rparr>"

text \<open>
  A start of the game in which every constructor but \<^verbatim>\<open>texture_from_bmp\<close> succeeds, and a
  world with nine allocations to come.
\<close>

definition cursor_fails :: acquisitions where
  "cursor_fails =
     \<lparr>nth_alloc_Game = 100, create_broadcast = 101, create_sprite_font_from_file = 102,
      create_level_picker = 103, create_sound_samples = 104, create_camera = 105,
      create_console = 106, texture_from_bmp = NULL,
      fresh_Game = \<lparr>lt = 9, state = GAME_STATE_QUIT, broadcast = 9, font = 9, level_picker = 9,
                     level = 9, sound_samples = 9, camera = 9, console = 9, renderer = 9,
                     texture_cursor = 9, cursor_x = 9, cursor_y = 9\<rparr>\<rparr>"

definition startup_world :: world where
  "startup_world =
     \<lparr>slots = Map.empty, lts = Map.empty, games = Map.empty, trace = [],
      mallocs = [20, 1, 2, 3, 4, 5, 6, 7, 8]\<rparr>"

section \<open>Properties of the Slot operations\<close>

text \<open>
  Claim C6. For every Slot, \<open>destroy_lt_slot\<close> calls the Slot's release function on the
  stored resource exactly once (it is the only call it adds), and then frees the Slot's own
  storage: the \<open>Free\<close> of the Slot follows the call, and the Slot is no longer live.
\<close>

theorem destroy_lt_slot_releases_once:
  assumes "lt_slot \<noteq> NULL" and "slots w lt_slot = Some s" and "resource_destroy s \<noteq> NULL"
  shows "destroy_lt_slot lt_slot w =
           Inr (w\<lparr>slots := (slots w)(lt_slot := None),
                  trace := trace w @ [Call (resource_destroy s) (resource s), Free lt_slot,
                                      Printf ''LT: remove slot\<newline>'']\<rparr>)"
  using assms by (simp add: destroy_lt_slot_def call_def)

theorem destroy_lt_slot_releases_once_witness:
  "destroy_lt_slot 10 one_slot_world =
     Inr (one_slot_world\<lparr>slots := (slots one_slot_world)(10 := None),
            trace := [Call 7 5, Free 10, Printf ''LT: remove slot\<newline>'']\<rparr>)"
  using destroy_lt_slot_releases_once [of 10 one_slot_world "\<lparr>resource = 5, resource_destroy = 7\<rparr>"]
  by (simp add: one_slot_world_def)

text \<open>
  Claim C7. For every Slot and every non-null candidate handle, \<open>lt_slot_contains_resource\<close>
  returns a true value (non-zero) if and only if the candidate is the very address stored
  in the Slot.
\<close>

theorem owns_iff_identity:
  assumes "lt_slot \<noteq> NULL" and "slots w lt_slot = Some s" and "candidate \<noteq> NULL"
  shows "\<exists>b. lt_slot_contains_resource lt_slot candidate w = Inr b \<and>
             (b \<noteq> 0 \<longleftrightarrow> candidate = resource s)"
  using assms by (auto simp add: lt_slot_contains_resource_def)

theorem owns_iff_identity_witness:
  "(\<exists>b. lt_slot_contains_resource 10 5 one_slot_world = Inr b \<and> b \<noteq> 0) \<and>
   (\<exists>b. lt_slot_contains_resource 10 6 one_slot_world = Inr b \<and> b = 0)"
  using owns_iff_identity [of 10 one_slot_world "\<lparr>resource = 5, resource_destroy = 7\<rparr>" 5]
    owns_iff_identity [of 10 one_slot_world "\<lparr>resource = 5, resource_destroy = 7\<rparr>" 6]
  by (simp add: one_slot_world_def)

text \<open>
  Claim C10. For every Slot pointer, asking \<open>lt_slot_contains_resource\<close> about the null
  handle fails an assertion: the result is an abort, not the answer false.
\<close>

theorem owns_null_candidate_aborts:
  "lt_slot_contains_resource lt_slot NULL w = Inl Abort"
  by (simp add: lt_slot_contains_resource_def)

text \<open>
  Claim C4. For every Slot and every non-null new resource, \<open>lt_slot_reset_resource\<close> adds
  exactly one event, the call of the Slot's release function on the old resource, and
  then the same Slot (the same address) holds the new resource with the release function
  it had; no Lifetime's sequence of Slots changes, so the Slot keeps its position in the
  teardown order.
\<close>

theorem replace_releases_old_then_installs:
  assumes "lt_slot \<noteq> NULL" and "slots w lt_slot = Some s" and "resource_destroy s \<noteq> NULL"
    and "new_resource \<noteq> NULL"
  shows "\<exists>w'. lt_slot_reset_resource lt_slot new_resource w = Inr w' \<and>
           trace w' = trace w @ [Call (resource_destroy s) (resource s)] \<and>
           slots w' = (slots w)(lt_slot \<mapsto> s\<lparr>resource := new_resource\<rparr>) \<and>
           resource (s\<lparr>resource := new_resource\<rparr>) = new_resource \<and>
           resource_destroy (s\<lparr>resource := new_resource\<rparr>) = resource_destroy s \<and>
           lts w' = lts w \<and> mallocs w' = mallocs w"
  using assms by (simp add: lt_slot_reset_resource_def call_def)

theorem replace_releases_old_then_installs_witness:
  "\<exists>w'. lt_slot_reset_resource 10 6 one_slot_world = Inr w' \<and>
     trace w' = [Call 7 5] \<and>
     slots w' = [10 \<mapsto> \<lparr>resource = 6, resource_destroy = 7\<rparr>] \<and>
     lts w' = [20 \<mapsto> [10]]"
  using replace_releases_old_then_installs
          [of 10 one_slot_world "\<lparr>resource = 5, resource_destroy = 7\<rparr>" 6]
  by (auto simp add: one_slot_world_def)

text \<open>
  Claim C8. \<open>create_lt_slot\<close> with a null resource or a null release function, and
  \<open>lt_slot_reset_resource\<close> with a null new resource, abort (they do not return a failure
  value); with non-null arguments \<open>create_lt_slot\<close> returns, and
  \<open>lt_slot_reset_resource\<close> on a live Slot returns.
\<close>

theorem null_arguments_abort:
  "(res = NULL \<or> res_destroy = NULL \<longrightarrow> create_lt_slot res res_destroy w = Inl Abort) \<and>
   (res \<noteq> NULL \<and> res_destroy \<noteq> NULL \<longrightarrow>
      (\<exists>p w'. create_lt_slot res res_destroy w = Inr (p, w'))) \<and>
   lt_slot_reset_resource lt_slot NULL w = Inl Abort \<and>
   (live w lt_slot \<and> new_resource \<noteq> NULL \<longrightarrow>
      (\<exists>w'. lt_slot_reset_resource lt_slot new_resource w = Inr w'))"
  by (auto simp add: create_lt_slot_def lt_slot_reset_resource_def call_def live_def
      split: option.splits prod.splits)

theorem null_arguments_abort_witness:
  "create_lt_slot NULL 7 one_slot_world = Inl Abort \<and>
   (\<exists>p w'. create_lt_slot 5 7 one_slot_world = Inr (p, w')) \<and>
   lt_slot_reset_resource 10 NULL one_slot_world = Inl Abort \<and>
   (\<exists>w'. lt_slot_reset_resource 10 6 one_slot_world = Inr w')"
  using null_arguments_abort [of NULL 7 one_slot_world 10 6]
    null_arguments_abort [of 5 7 one_slot_world 10 6]
  by (simp add: one_slot_world_def live_def)

text \<open>
  Claim C3, as stated, fails: when the allocation of the Slot fails, \<open>create_lt_slot\<close>
  returns \<open>NULL\<close> and no release function has been called.
\<close>

theorem create_failure_calls_no_release:
  "create_lt_slot 5 7 oom_world = Inr (NULL, oom_world) \<and> Call 7 5 \<notin> set (trace oom_world)"
  by (simp add: create_lt_slot_def malloc_def oom_world_def)

text \<open>
  Claim C3, amended. For every non-null resource and release function, when the allocation
  of the Slot fails, \<open>create_lt_slot\<close> returns the failure sentinel \<open>NULL\<close>, no Slot is
  registered, and the function itself calls nothing: the trace is unchanged. Releasing the
  resource on this path is the work of its caller \<open>track\<close> (claim C2).
\<close>

theorem create_failure_returns_sentinel_only:
  assumes "res \<noteq> NULL" and "res_destroy \<noteq> NULL" and "fst (malloc w) = NULL"
  shows "\<exists>w'. create_lt_slot res res_destroy w = Inr (NULL, w') \<and>
           slots w' = slots w \<and> lts w' = lts w \<and> trace w' = trace w"
  using assms by (auto simp add: create_lt_slot_def malloc_def split: list.splits)

theorem create_failure_returns_sentinel_only_witness:
  "\<exists>w'. create_lt_slot 6 8 (one_slot_world\<lparr>mallocs := [NULL, 12]\<rparr>) = Inr (NULL, w') \<and>
     slots w' = [10 \<mapsto> \<lparr>resource = 5, resource_destroy = 7\<rparr>] \<and> trace w' = []"
  using create_failure_returns_sentinel_only [of 6 8 "one_slot_world\<lparr>mallocs := [NULL, 12]\<rparr>"]
  by (auto simp add: one_slot_world_def malloc_def)

section \<open>Properties of the Lifetime\<close>

lemma calls_append: "calls (xs @ ys) = calls xs @ calls ys"
  by (induction xs rule: calls.induct) simp_all

lemma slot_calls_append: "slot_calls w (ps @ qs) = slot_calls w ps @ slot_calls w qs"
  by (induction ps) (simp_all split: option.splits)

lemma slot_calls_rev: "slot_calls w (rev ps) = rev (slot_calls w ps)"
  by (induction ps) (simp_all add: slot_calls_append split: option.splits)

lemma slot_calls_cong:
  "(\<And>p. p \<in> set ps \<Longrightarrow> slots w' p = slots w p) \<Longrightarrow> slot_calls w' ps = slot_calls w ps"
  by (induction ps) (simp_all split: option.splits)

lemma destroy_lt_slot_live:
  assumes "live w p"
  shows "\<exists>w'. destroy_lt_slot p w = Inr w' \<and>
           calls (trace w') = calls (trace w) @ slot_calls w [p] \<and>
           slots w' = (slots w)(p := None) \<and> lts w' = lts w \<and>
           mallocs w' = mallocs w \<and> games w' = games w"
  using assms
  by (auto simp add: live_def destroy_lt_slot_def call_def calls_append split: option.splits)

lemma destroy_slots_live:
  assumes "distinct ps" and "\<forall>p \<in> set ps. live w p"
  shows "\<exists>w'. destroy_slots ps w = Inr w' \<and>
           calls (trace w') = calls (trace w) @ slot_calls w ps \<and>
           slots w' = (\<lambda>q. if q \<in> set ps then None else slots w q) \<and>
           lts w' = lts w \<and> mallocs w' = mallocs w \<and> games w' = games w"
  using assms
proof (induction ps arbitrary: w)
  case Nil
  then show ?case by simp
next
  case (Cons p ps)
  from Cons.prems have lp: "live w p" by simp
  from destroy_lt_slot_live [OF lp] obtain w1 where
    d: "destroy_lt_slot p w = Inr w1"
    and c: "calls (trace w1) = calls (trace w) @ slot_calls w [p]"
    and s: "slots w1 = (slots w)(p := None)"
    and r: "lts w1 = lts w" "mallocs w1 = mallocs w" "games w1 = games w"
    by blast
  from Cons.prems have np: "p \<notin> set ps" and dps: "distinct ps" by simp_all
  have l1: "\<forall>q \<in> set ps. live w1 q"
    using Cons.prems np by (auto simp add: live_def s)
  from Cons.IH [OF dps l1] obtain w2 where
    d2: "destroy_slots ps w1 = Inr w2"
    and c2: "calls (trace w2) = calls (trace w1) @ slot_calls w1 ps"
    and s2: "slots w2 = (\<lambda>q. if q \<in> set ps then None else slots w1 q)"
    and r2: "lts w2 = lts w1" "mallocs w2 = mallocs w1" "games w2 = games w1"
    by blast
  have same: "slot_calls w1 ps = slot_calls w ps"
    using np by (intro slot_calls_cong) (auto simp add: s)
  have "slot_calls w (p # ps) = slot_calls w [p] @ slot_calls w ps"
    using slot_calls_append [of w "[p]" ps] by simp
  with c c2 same have "calls (trace w2) = calls (trace w) @ slot_calls w (p # ps)"
    by simp
  moreover have "slots w2 = (\<lambda>q. if q \<in> set (p # ps) then None else slots w q)"
    by (auto simp add: s2 s)
  ultimately show ?case using d d2 r r2 by simp
qed

lemma destroy_lt_ok:
  assumes "lt_ok w l" and "lts w l = Some frames"
  shows "\<exists>w'. destroy_lt l w = Inr w' \<and>
           calls (trace w') = calls (trace w) @ rev (pending w l) \<and>
           slots w' = (\<lambda>q. if q \<in> set frames then None else slots w q) \<and>
           lts w' = (lts w)(l := None) \<and> mallocs w' = mallocs w \<and> games w' = games w"
proof -
  from assms have "distinct (rev frames)" and "\<forall>p \<in> set (rev frames). live w p"
    by (auto simp add: lt_ok_def)
  from destroy_slots_live [OF this] obtain w1 where
    "destroy_slots (rev frames) w = Inr w1"
    "calls (trace w1) = calls (trace w) @ slot_calls w (rev frames)"
    "slots w1 = (\<lambda>q. if q \<in> set (rev frames) then None else slots w q)"
    "lts w1 = lts w" "mallocs w1 = mallocs w" "games w1 = games w"
    by blast
  then show ?thesis
    using assms(2) by (simp add: destroy_lt_def pending_def slot_calls_rev calls_append)
qed

lemma malloc_cases:
  "(fst (malloc w) = NULL \<and> slots (snd (malloc w)) = slots w \<and> lts (snd (malloc w)) = lts w \<and>
      games (snd (malloc w)) = games w \<and> trace (snd (malloc w)) = trace w) \<or>
   (\<exists>ps. mallocs w = fst (malloc w) # ps \<and> fst (malloc w) \<noteq> NULL \<and>
      snd (malloc w) = w\<lparr>mallocs := ps\<rparr>)"
  by (cases "mallocs w") (auto simp add: malloc_def)

lemma lt_push_fails:
  assumes "lts w l = Some frames" and "res \<noteq> NULL" and "res_destroy \<noteq> NULL"
    and "fst (malloc w) = NULL"
  shows "lt_push l res res_destroy w =
           Inr (NULL, (snd (malloc w))\<lparr>trace := trace w @ [Call res_destroy res]\<rparr>)"
  using assms malloc_cases [of w]
  by (auto simp add: lt_push_def create_lt_slot_def call_def split: prod.splits)

lemma lt_push_succeeds:
  assumes "lts w l = Some frames" and "res \<noteq> NULL" and "res_destroy \<noteq> NULL"
    and "mallocs w = p # ps" and "p \<noteq> NULL"
  shows "lt_push l res res_destroy w =
           Inr (res, w\<lparr>mallocs := ps,
                  slots := (slots w)(p \<mapsto> \<lparr>resource = res, resource_destroy = res_destroy\<rparr>),
                  trace := trace w @ [Printf ''LT: created slot\<newline>''],
                  lts := (lts w)(l \<mapsto> frames @ [p])\<rparr>)"
  using assms
  by (simp add: lt_push_def create_lt_slot_def malloc_def)

lemma lt_push_returns_resource:
  assumes "lt_push l res res_destroy w = Inr (res, w1)" and "res \<noteq> NULL"
  shows "\<exists>frames p ps. lts w l = Some frames \<and> res_destroy \<noteq> NULL \<and> mallocs w = p # ps \<and> p \<noteq> NULL"
  using assms
  by (auto simp add: lt_push_def create_lt_slot_def malloc_def call_def
      split: option.splits if_splits list.splits sum.splits prod.splits)

lemma live_slot_calls_length: "\<forall>p \<in> set ps. live w p \<Longrightarrow> length (slot_calls w ps) = length ps"
  by (induction ps) (auto simp add: live_def split: option.splits)

lemma lt_push_success_step:
  assumes ok: "lt_ok w l" and m: "malloc_ok w" and nn: "res \<noteq> NULL"
    and push: "lt_push l res res_destroy w = Inr (res, w1)"
  shows "lt_ok w1 l \<and> malloc_ok w1 \<and> pending w1 l = pending w l @ [(res_destroy, res)] \<and>
         calls (trace w1) = calls (trace w) \<and> games w1 = games w"
proof -
  from lt_push_returns_resource [OF push nn] obtain frames p ps where
    f: "lts w l = Some frames" and d: "res_destroy \<noteq> NULL"
    and ms: "mallocs w = p # ps" and p: "p \<noteq> NULL"
    by blast
  from lt_push_succeeds [OF f nn d ms p] push have w1:
    "w1 = w\<lparr>mallocs := ps,
            slots := (slots w)(p \<mapsto> \<lparr>resource = res, resource_destroy = res_destroy\<rparr>),
            trace := trace w @ [Printf ''LT: created slot\<newline>''],
            lts := (lts w)(l \<mapsto> frames @ [p])\<rparr>"
    by simp
  from m ms p have fresh: "slots w p = None" "lts w p = None"
    by (simp_all add: malloc_ok_def)
  from ok f have dist: "distinct frames" and lv: "\<forall>q \<in> set frames. live w q"
    by (simp_all add: lt_ok_def)
  from lv fresh have notin: "p \<notin> set frames"
    by (auto simp add: live_def)
  from fresh f have pl: "p \<noteq> l" by auto
  have ok1: "lt_ok w1 l"
    using dist lv notin p d by (auto simp add: lt_ok_def w1 live_def)
  have m1: "malloc_ok w1"
    using m ms p pl f by (auto simp add: malloc_ok_def w1)
  have "slot_calls w1 frames = slot_calls w frames"
    using notin by (intro slot_calls_cong) (auto simp add: w1)
  then have pend: "pending w1 l = pending w l @ [(res_destroy, res)]"
    using f by (simp add: pending_def w1 slot_calls_append)
  show ?thesis using ok1 m1 pend by (simp add: w1 calls_append)
qed

lemma track_all_success:
  assumes "lt_ok w l" and "malloc_ok w" and "\<forall>rf \<in> set rs. fst rf \<noteq> NULL"
    and "track_all l rs w = Inr (map fst rs, w1)"
  shows "lt_ok w1 l \<and> malloc_ok w1 \<and>
         pending w1 l = pending w l @ map (\<lambda>rf. (snd rf, fst rf)) rs \<and>
         calls (trace w1) = calls (trace w)"
  using assms
proof (induction rs arbitrary: w)
  case Nil
  then show ?case by simp
next
  case (Cons rf rs)
  obtain res res_destroy where rf: "rf = (res, res_destroy)" by (cases rf)
  from Cons.prems(4) obtain wm where
    push: "lt_push l res res_destroy w = Inr (res, wm)"
    and rest: "track_all l rs wm = Inr (map fst rs, w1)"
    by (auto simp add: rf split: sum.splits prod.splits)
  from Cons.prems(3) have nn: "res \<noteq> NULL" and nns: "\<forall>rf \<in> set rs. fst rf \<noteq> NULL"
    by (simp_all add: rf)
  from lt_push_success_step [OF Cons.prems(1) Cons.prems(2) nn push] have
    step: "lt_ok wm l" "malloc_ok wm" "pending wm l = pending w l @ [(res_destroy, res)]"
      "calls (trace wm) = calls (trace w)"
    by simp_all
  from Cons.IH [OF step(1) step(2) nns rest] show ?case
    using step(3) step(4) by (simp add: rf)
qed

text \<open>
  Claim C1. Take a Lifetime in good order and a run of track calls on it that all succeed
  (each returns its non-null resource). Destroying the Lifetime then returns, and the
  release calls it makes are exactly the tracked (function, handle) pairs in reverse order
  of tracking, each once, followed by those of the Slots the Lifetime had before, in
  reverse order too; afterwards the Lifetime is gone.
\<close>

theorem tracked_resources_released_in_reverse:
  assumes "lt_ok w l" and "malloc_ok w" and "\<forall>rf \<in> set rs. fst rf \<noteq> NULL"
    and "track_all l rs w = Inr (map fst rs, w1)"
  shows "\<exists>w2. destroy_lt l w1 = Inr w2 \<and>
           calls (trace w2) =
             calls (trace w) @ rev (map (\<lambda>rf. (snd rf, fst rf)) rs) @ rev (pending w l) \<and>
           lts w2 l = None"
proof -
  from track_all_success [OF assms] have
    ok1: "lt_ok w1 l" and pend: "pending w1 l = pending w l @ map (\<lambda>rf. (snd rf, fst rf)) rs"
    and c: "calls (trace w1) = calls (trace w)"
    by simp_all
  from ok1 obtain frames where f: "lts w1 l = Some frames"
    by (auto simp add: lt_ok_def split: option.splits)
  from destroy_lt_ok [OF ok1 f] show ?thesis
    using pend c by auto
qed

theorem tracked_resources_released_in_reverse_witness:
  "\<exists>w1 w2. track_all 20 [(5, 7), (6, 8), (9, 8)] empty_lt_world = Inr ([5, 6, 9], w1) \<and>
     destroy_lt 20 w1 = Inr w2 \<and> calls (trace w2) = [(8, 9), (8, 6), (7, 5)]"
proof -
  obtain w1 where t: "track_all 20 [(5, 7), (6, 8), (9, 8)] empty_lt_world = Inr ([5, 6, 9], w1)"
    by (simp add: empty_lt_world_def lt_push_def create_lt_slot_def malloc_def)
  have ok: "lt_ok empty_lt_world 20" and m: "malloc_ok empty_lt_world"
    by (simp_all add: empty_lt_world_def lt_ok_def malloc_ok_def)
  have "\<exists>w2. destroy_lt 20 w1 = Inr w2 \<and>
           calls (trace w2) =
             calls (trace empty_lt_world) @ rev (map (\<lambda>rf. (snd rf, fst rf)) [(5, 7), (6, 8), (9, 8)])
               @ rev (pending empty_lt_world 20) \<and>
           lts w2 20 = None"
    using tracked_resources_released_in_reverse [OF ok m _ , of "[(5, 7), (6, 8), (9, 8)]" w1] t
    by simp
  then show ?thesis using t by (auto simp add: empty_lt_world_def pending_def)
qed

lemma pending_eq: "slots w' = slots w \<Longrightarrow> lts w' = lts w \<Longrightarrow> pending w' l = pending w l"
proof -
  assume a: "slots w' = slots w" and b: "lts w' = lts w"
  have "slot_calls w' ps = slot_calls w ps" for ps
    by (rule slot_calls_cong) (simp add: a)
  then show ?thesis by (simp add: pending_def b split: option.splits)
qed

text \<open>
  Claim C2. For every live Lifetime and every track call with a non-null resource and
  release function: when registering the Slot fails (the allocation fails), the call adds
  exactly one event, the release of the resource, returns the failure signal \<open>NULL\<close>, and
  leaves every Lifetime and every Slot as it was (the tracked count is unchanged); when
  the allocation succeeds, the call returns the resource unchanged, with a new Slot at the
  end of the sequence and no release call.
\<close>

theorem track_failure_releases_immediately:
  assumes "lts w l = Some frames" and "res \<noteq> NULL" and "res_destroy \<noteq> NULL"
  shows "(fst (malloc w) = NULL \<longrightarrow>
            (\<exists>w'. lt_push l res res_destroy w = Inr (NULL, w') \<and>
                   trace w' = trace w @ [Call res_destroy res] \<and>
                   lts w' = lts w \<and> slots w' = slots w \<and> pending w' l = pending w l)) \<and>
         (fst (malloc w) \<noteq> NULL \<longrightarrow>
            (\<exists>w'. lt_push l res res_destroy w = Inr (res, w') \<and>
                   calls (trace w') = calls (trace w) \<and>
                   lts w' l = Some (frames @ [fst (malloc w)])))"
proof (intro conjI impI)
  assume fail: "fst (malloc w) = NULL"
  from malloc_cases [of w] fail have
    same: "slots (snd (malloc w)) = slots w" "lts (snd (malloc w)) = lts w"
    by auto
  let ?w' = "(snd (malloc w))\<lparr>trace := trace w @ [Call res_destroy res]\<rparr>"
  have "pending ?w' l = pending w l"
    by (rule pending_eq) (simp_all add: same)
  then show "\<exists>w'. lt_push l res res_destroy w = Inr (NULL, w') \<and>
              trace w' = trace w @ [Call res_destroy res] \<and>
              lts w' = lts w \<and> slots w' = slots w \<and> pending w' l = pending w l"
    using lt_push_fails [OF assms fail] same by simp
next
  assume "fst (malloc w) \<noteq> NULL"
  with malloc_cases [of w] obtain ps where
    ms: "mallocs w = fst (malloc w) # ps" and p: "fst (malloc w) \<noteq> NULL"
    by auto
  show "\<exists>w'. lt_push l res res_destroy w = Inr (res, w') \<and>
              calls (trace w') = calls (trace w) \<and>
              lts w' l = Some (frames @ [fst (malloc w)])"
    using lt_push_succeeds [OF assms ms p] by (simp add: calls_append)
qed

theorem track_failure_releases_immediately_witness:
  "(\<exists>w'. lt_push 20 6 8 (one_slot_world\<lparr>mallocs := []\<rparr>) = Inr (NULL, w') \<and>
          trace w' = [Call 8 6] \<and> lts w' 20 = Some [10]) \<and>
   (\<exists>w'. lt_push 20 6 8 one_slot_world = Inr (6, w') \<and> lts w' 20 = Some [10, 11])"
  using track_failure_releases_immediately [of "one_slot_world\<lparr>mallocs := []\<rparr>" 20 "[10]" 6 8]
    track_failure_releases_immediately [of one_slot_world 20 "[10]" 6 8]
  by (auto simp add: one_slot_world_def malloc_def)

lemma find_slot_first_owner:
  assumes "\<forall>q \<in> set pre. lt_slot_contains_resource q res w = Inr 0"
    and "lt_slot_contains_resource p res w = Inr 1"
  shows "find_slot (pre @ p # post) res w = Inr (Some p)"
  using assms by (induction pre) simp_all

lemma find_slot_no_owner:
  assumes "\<forall>q \<in> set frames. lt_slot_contains_resource q res w = Inr 0"
  shows "find_slot frames res w = Inr None"
  using assms by (induction frames) simp_all

lemma contains_1D:
  "lt_slot_contains_resource p res w = Inr 1 \<Longrightarrow>
     p \<noteq> NULL \<and> res \<noteq> NULL \<and> (\<exists>s. slots w p = Some s \<and> resource s = res)"
  by (auto simp add: lt_slot_contains_resource_def split: if_splits option.splits)

lemma slot_calls_update:
  assumes "distinct (pre @ p # post)" and "\<forall>q \<in> set pre. live w q" and "slots w p = Some s"
    and "slots w' = (slots w)(p \<mapsto> s')"
  shows "slot_calls w' (pre @ p # post) =
           (slot_calls w (pre @ p # post))[length pre := (resource_destroy s', resource s')]"
proof -
  have a: "slot_calls w' pre = slot_calls w pre"
    using assms(1,4) by (intro slot_calls_cong) auto
  have b: "slot_calls w' post = slot_calls w post"
    using assms(1,4) by (intro slot_calls_cong) auto
  have len: "length (slot_calls w pre) = length pre"
    using assms(2) by (rule live_slot_calls_length)
  show ?thesis
    using assms(3,4) a b len
    by (simp add: slot_calls_append list_update_append)
qed

text \<open>
  Claim C5. On a Lifetime in good order: if \<open>p\<close> is the first Slot of the sequence that
  owns the resource (by \<open>lt_slot_contains_resource\<close>), \<open>lt_reset\<close> releases the old
  resource exactly once, then invokes the constructor, and returns what the constructor
  produced (the failure signal when it failed); the sequence of Slots is unchanged, and
  when the constructor succeeded the same Slot holds the new resource, at the same
  position of what the Lifetime will release. If no Slot owns the resource, \<open>lt_reset\<close>
  returns the failure signal and changes nothing.
\<close>

theorem reset_replaces_in_place:
  assumes "lt_ok w l" and "lts w l = Some frames"
  shows "(frames = pre @ p # post \<and>
          (\<forall>q \<in> set pre. lt_slot_contains_resource q res w = Inr 0) \<and>
          lt_slot_contains_resource p res w = Inr 1 \<and> slots w p = Some s \<longrightarrow>
            (\<exists>w'. lt_reset l res c w = Inr (snd c, w') \<and>
                   trace w' = trace w @ [Call (resource_destroy s) res, Construct (fst c)] \<and>
                   lts w' = lts w \<and>
                   (snd c \<noteq> NULL \<longrightarrow>
                      slots w' = (slots w)(p \<mapsto> s\<lparr>resource := snd c\<rparr>) \<and>
                      pending w' l = (pending w l)[length pre := (resource_destroy s, snd c)]))) \<and>
         ((\<forall>q \<in> set frames. lt_slot_contains_resource q res w = Inr 0) \<longrightarrow>
            lt_reset l res c w = Inr (NULL, w))"
proof (intro conjI impI)
  assume none: "\<forall>q \<in> set frames. lt_slot_contains_resource q res w = Inr 0"
  show "lt_reset l res c w = Inr (NULL, w)"
    using assms(2) find_slot_no_owner [OF none] by (simp add: lt_reset_def)
next
  assume found: "frames = pre @ p # post \<and>
          (\<forall>q \<in> set pre. lt_slot_contains_resource q res w = Inr 0) \<and>
          lt_slot_contains_resource p res w = Inr 1 \<and> slots w p = Some s"
  then have fr: "frames = pre @ p # post"
    and pre: "\<forall>q \<in> set pre. lt_slot_contains_resource q res w = Inr 0"
    and own: "lt_slot_contains_resource p res w = Inr 1" and s: "slots w p = Some s"
    by simp_all
  from contains_1D [OF own] s have r: "resource s = res" by auto
  from assms fr have dist: "distinct (pre @ p # post)" and lv: "\<forall>q \<in> set (pre @ p # post). live w q"
    by (simp_all add: lt_ok_def)
  from lv s have d: "resource_destroy s \<noteq> NULL" by (simp add: live_def)
  from lv have lvpre: "\<forall>q \<in> set pre. live w q" by simp
  have fs: "find_slot frames res w = Inr (Some p)"
    unfolding fr using pre own by (rule find_slot_first_owner)
  show "\<exists>w'. lt_reset l res c w = Inr (snd c, w') \<and>
                   trace w' = trace w @ [Call (resource_destroy s) res, Construct (fst c)] \<and>
                   lts w' = lts w \<and>
                   (snd c \<noteq> NULL \<longrightarrow>
                      slots w' = (slots w)(p \<mapsto> s\<lparr>resource := snd c\<rparr>) \<and>
                      pending w' l = (pending w l)[length pre := (resource_destroy s, snd c)])"
  proof (cases "snd c = NULL")
    case True
    then show ?thesis
      using assms(2) fs s d r by (simp add: lt_reset_def call_def invoke_def)
  next
    case False
    let ?w' = "w\<lparr>trace := trace w @ [Call (resource_destroy s) res, Construct (fst c)],
                  slots := (slots w)(p \<mapsto> s\<lparr>resource := snd c\<rparr>)\<rparr>"
    have eq: "lt_reset l res c w = Inr (snd c, ?w')"
      using assms(2) fs s d r False by (simp add: lt_reset_def call_def invoke_def)
    have "slot_calls ?w' (pre @ p # post) =
            (slot_calls w (pre @ p # post))[length pre :=
               (resource_destroy (s\<lparr>resource := snd c\<rparr>), resource (s\<lparr>resource := snd c\<rparr>))]"
      using dist lvpre s by (rule slot_calls_update) simp
    then have "pending ?w' l = (pending w l)[length pre := (resource_destroy s, snd c)]"
      using assms(2) by (simp add: pending_def fr)
    with eq show ?thesis by simp
  qed
qed

theorem reset_replaces_in_place_witness:
  "(\<exists>w'. lt_reset 20 5 (''create_level_from_file'', 9) two_slot_world = Inr (9, w') \<and>
          trace w' = [Call 7 5, Construct ''create_level_from_file''] \<and>
          lts w' 20 = Some [10, 11] \<and>
          pending w' 20 = [(7, 9), (8, 6)]) \<and>
   lt_reset 20 4 (''create_level_from_file'', 9) two_slot_world = Inr (NULL, two_slot_world)"
proof -
  have ok: "lt_ok two_slot_world 20" and f: "lts two_slot_world 20 = Some [10, 11]"
    by (simp_all add: two_slot_world_def lt_ok_def live_def)
  have own: "lt_slot_contains_resource 10 5 two_slot_world = Inr 1"
    and s: "slots two_slot_world 10 = Some \<lparr>resource = 5, resource_destroy = 7\<rparr>"
    and none: "\<forall>q \<in> set [10, 11]. lt_slot_contains_resource q 4 two_slot_world = Inr 0"
    and p: "pending two_slot_world 20 = [(7, 5), (8, 6)]"
    and t: "trace two_slot_world = []"
    by (simp_all add: two_slot_world_def lt_slot_contains_resource_def pending_def)
  show ?thesis
    using reset_replaces_in_place [OF ok f, of "[]" 10 "[11]" 5
            "\<lparr>resource = 5, resource_destroy = 7\<rparr>" "(''create_level_from_file'', 9)"]
      reset_replaces_in_place [OF ok f, of "[]" 10 "[11]" 4
            "\<lparr>resource = 5, resource_destroy = 7\<rparr>" "(''create_level_from_file'', 9)"]
      own s none p f t
    by auto
qed

section \<open>Properties of \<open>create_game\<close>\<close>

lemma building_cong:
  assumes "building w0 l w" and "slots w' = slots w" and "lts w' = lts w"
  shows "building w0 l w'"
  using assms by (auto simp add: building_def lt_ok_def live_def split: option.splits)

lemma stage_cong:
  assumes "stage w0 l rs w" and "slots w' = slots w" and "lts w' = lts w" and "mallocs w' = mallocs w"
  shows "stage w0 l rs w'"
  using assms building_cong [of w0 l w w'] by (simp add: stage_def malloc_ok_def)

lemma RETURN_LT_abandons:
  assumes "building w0 l w"
  shows "abandoned w0 (RETURN_LT l NULL w)"
proof -
  from assms obtain frames where f: "lts w l = Some frames" and ok: "lt_ok w l"
    and new: "lts w0 l = None" and others: "\<forall>q. q \<noteq> l \<longrightarrow> lts w q = lts w0 q"
    and fresh: "\<forall>p \<in> set frames. slots w0 p = None"
    and kept: "\<forall>q. q \<notin> set frames \<longrightarrow> slots w q = slots w0 q"
    by (auto simp add: building_def split: option.splits)
  from destroy_lt_ok [OF ok f] obtain w' where
    d: "destroy_lt l w = Inr w'"
    and s: "slots w' = (\<lambda>q. if q \<in> set frames then None else slots w q)"
    and t: "lts w' = (lts w)(l := None)"
    by blast
  have "slots w' = slots w0" using s fresh kept by auto
  moreover have "lts w' = lts w0" using t new others by auto
  ultimately show ?thesis using d by (simp add: abandoned_def RETURN_LT_def)
qed

lemma acquire_abandons:
  assumes st: "stage w0 l (r # rs) w" and f: "res_destroy \<noteq> NULL"
    and fr: "\<And>h v. slots (store h v) = slots v \<and> lts (store h v) = lts v \<and>
                     mallocs (store h v) = mallocs v"
    and K: "\<And>w2. stage w0 l rs w2 \<Longrightarrow> abandoned w0 (k r w2)"
  shows "abandoned w0 (acquire l (n, r) res_destroy store w k)"
proof -
  let ?w1 = "w\<lparr>trace := trace w @ [Construct n]\<rparr>"
  from st have st1: "stage w0 l (r # rs) ?w1"
    by (rule stage_cong) simp_all
  then have b1: "building w0 l ?w1" and m1: "malloc_ok ?w1"
    and bad: "\<not> all_acquired (r # rs) (mallocs ?w1)"
    by (simp_all add: stage_def)
  from b1 obtain frames where fs: "lts ?w1 l = Some frames" and ok1: "lt_ok ?w1 l"
    by (auto simp add: building_def split: option.splits)
  have inv: "invoke (n, r) w = (r, ?w1)" by (simp add: invoke_def)
  show ?thesis
  proof (cases "r = NULL")
    case True
    have "lt_push l r res_destroy ?w1 = Inr (NULL, ?w1)"
      using fs True by (simp add: lt_push_def)
    moreover have "building w0 l (store NULL ?w1)"
      using b1 by (rule building_cong) (simp_all add: fr)
    then have "abandoned w0 (RETURN_LT l NULL (store NULL ?w1))"
      by (rule RETURN_LT_abandons)
    ultimately show ?thesis
      using inv by (simp add: acquire_def PUSH_LT_def Let_def)
  next
    case False
    show ?thesis
    proof (cases "fst (malloc ?w1) = NULL")
      case True
      let ?w2 = "(snd (malloc ?w1))\<lparr>trace := trace ?w1 @ [Call res_destroy r]\<rparr>"
      from malloc_cases [of ?w1] True have
        same: "slots (snd (malloc ?w1)) = slots ?w1" "lts (snd (malloc ?w1)) = lts ?w1"
        by auto
      have "building w0 l (store NULL ?w2)"
        using b1 by (rule building_cong) (simp_all add: same fr)
      then have "abandoned w0 (RETURN_LT l NULL (store NULL ?w2))"
        by (rule RETURN_LT_abandons)
      then show ?thesis
        using inv lt_push_fails [OF fs False f True] by (simp add: acquire_def PUSH_LT_def Let_def)
    next
      case nonnull: False
      with malloc_cases [of ?w1] obtain ps where
        ms: "mallocs ?w1 = fst (malloc ?w1) # ps" and p: "fst (malloc ?w1) \<noteq> NULL"
        by auto
      let ?p = "fst (malloc ?w1)"
      let ?w2 = "?w1\<lparr>mallocs := ps,
                  slots := (slots ?w1)(?p \<mapsto> \<lparr>resource = r, resource_destroy = res_destroy\<rparr>),
                  trace := trace ?w1 @ [Printf ''LT: created slot\<newline>''],
                  lts := (lts ?w1)(l \<mapsto> frames @ [?p])\<rparr>"
      have push: "lt_push l r res_destroy ?w1 = Inr (r, ?w2)"
        by (rule lt_push_succeeds [OF fs False f ms p])
      from lt_push_success_step [OF ok1 m1 False push] have
        ok2: "lt_ok ?w2 l" and m2: "malloc_ok ?w2"
        by simp_all
      from m1 ms p have fresh: "slots ?w1 ?p = None"
        by (simp add: malloc_ok_def)
      from ok1 fs have lv: "\<forall>q \<in> set frames. live ?w1 q"
        by (simp add: lt_ok_def)
      from lv fresh have notin: "?p \<notin> set frames"
        by (auto simp add: live_def)
      from b1 fs have new: "lts w0 l = None" and others: "\<forall>q. q \<noteq> l \<longrightarrow> lts ?w1 q = lts w0 q"
        and fresh0: "\<forall>q \<in> set frames. slots w0 q = None"
        and kept: "\<forall>q. q \<notin> set frames \<longrightarrow> slots ?w1 q = slots w0 q"
        by (simp_all add: building_def)
      from kept notin fresh have p0: "slots w0 ?p = None" by auto
      have b2: "building w0 l ?w2"
        unfolding building_def
        using ok2 new others fresh0 kept p0 by auto
      from bad ms p False have "\<not> all_acquired rs ps" by simp
      then have "stage w0 l rs ?w2"
        using b2 m2 by (simp add: stage_def)
      then have "stage w0 l rs (store r ?w2)"
        by (rule stage_cong) (simp_all add: fr)
      then have "abandoned w0 (k r (store r ?w2))" by (rule K)
      then show ?thesis
        using inv push False by (simp add: acquire_def PUSH_LT_def Let_def)
    qed
  qed
qed

lemmas release_fn_defs =
  free_fn_def destroy_broadcast_fn_def destroy_sprite_font_fn_def destroy_level_picker_fn_def
  destroy_sound_samples_fn_def destroy_camera_fn_def destroy_console_fn_def
  SDL_DestroyTexture_fn_def

lemma acquire_abandons_after_writes:
  assumes "stage w0 l (r # rs) wa"
    and "slots w = slots wa \<and> lts w = lts wa \<and> mallocs w = mallocs wa"
    and "res_destroy \<noteq> NULL"
    and "\<And>h v. slots (store h v) = slots v \<and> lts (store h v) = lts v \<and>
                 mallocs (store h v) = mallocs v"
    and "\<And>w2. stage w0 l rs w2 \<Longrightarrow> abandoned w0 (k r w2)"
  shows "abandoned w0 (acquire l (n, r) res_destroy store w k)"
proof -
  from assms(1,2) have "stage w0 l (r # rs) w"
    by (intro stage_cong [of w0 l "r # rs" wa w]) simp_all
  then show ?thesis using assms(3,4,5) by (rule acquire_abandons)
qed

lemma stage_Nil: "stage w0 l [] w \<Longrightarrow> P"
  by (simp add: stage_def)

lemma create_lt_stage:
  assumes "malloc_ok w" and "mallocs w = l # ms" and "l \<noteq> NULL" and "\<not> all_acquired rs ms"
  shows "stage w l rs (w\<lparr>mallocs := ms, lts := (lts w)(l \<mapsto> [])\<rparr>)"
  using assms by (auto simp add: stage_def building_def lt_ok_def malloc_ok_def)

lemma create_game_abandons:
  assumes lf: "level_folder \<noteq> NULL" and m: "malloc_ok w"
    and bad: "\<not> checked_acquisitions_succeed env w"
  shows "abandoned w (create_game env level_folder sound_sample_files sound_sample_files_count rend w)"
proof (cases "mallocs w")
  case Nil
  then show ?thesis
    using lf by (simp add: create_game_def create_lt_def malloc_def abandoned_def)
next
  case (Cons l ms)
  show ?thesis
  proof (cases "l = NULL")
    case True
    then show ?thesis
      using lf Cons by (simp add: create_game_def create_lt_def malloc_def abandoned_def)
  next
    case False
    from bad Cons False have
      "\<not> all_acquired
            [nth_alloc_Game env, create_broadcast env, create_sprite_font_from_file env,
             create_level_picker env, create_sound_samples env, create_camera env,
             create_console env] ms"
      by (simp add: checked_acquisitions_succeed_def)
    from create_lt_stage [OF m Cons False this] show ?thesis
      unfolding create_game_def create_lt_def malloc_def Let_def
      using lf Cons False
      apply simp
      apply (erule acquire_abandons_after_writes, simp add: set_game_def,
          simp add: release_fn_defs, simp add: set_game_def)
      apply (erule acquire_abandons_after_writes, simp add: set_game_def,
          simp add: release_fn_defs, simp add: set_game_def)
      apply (erule acquire_abandons_after_writes, simp add: set_game_def,
          simp add: release_fn_defs, simp add: set_game_def)
      apply (erule acquire_abandons_after_writes, simp add: set_game_def,
          simp add: release_fn_defs, simp add: set_game_def)
      apply (erule acquire_abandons_after_writes, simp add: set_game_def,
          simp add: release_fn_defs, simp add: set_game_def)
      apply (erule acquire_abandons_after_writes, simp add: set_game_def,
          simp add: release_fn_defs, simp add: set_game_def)
      apply (erule acquire_abandons_after_writes, simp add: set_game_def,
          simp add: release_fn_defs, simp add: set_game_def)
      apply (erule stage_Nil)
      done
  qed
qed

lemma all_acquired_Cons:
  "all_acquired (r # rs) ms \<longleftrightarrow>
     (\<exists>m ms'. ms = m # ms' \<and> r \<noteq> NULL \<and> m \<noteq> NULL \<and> all_acquired rs ms')"
  by (cases ms) simp_all

lemma lt_push_total:
  assumes "lts w l = Some frames" and "res_destroy \<noteq> NULL"
  shows "\<exists>h w'. lt_push l res res_destroy w = Inr (h, w') \<and> (h = NULL \<or> h = res) \<and>
           games w' = games w \<and> (res = NULL \<longrightarrow> w' = w)"
proof (cases "res = NULL")
  case True
  then show ?thesis using assms by (simp add: lt_push_def)
next
  case False
  show ?thesis
  proof (cases "fst (malloc w) = NULL")
    case True
    with malloc_cases [of w] have "games (snd (malloc w)) = games w" by auto
    then show ?thesis
      using lt_push_fails [OF assms(1) False assms(2) True] False by simp
  next
    case nonnull: False
    with malloc_cases [of w] obtain ps where
      "mallocs w = fst (malloc w) # ps" "fst (malloc w) \<noteq> NULL"
      by auto
    from lt_push_succeeds [OF assms(1) False assms(2) this] show ?thesis
      using False by simp
  qed
qed

lemma create_game_succeeds:
  assumes lf: "level_folder \<noteq> NULL" and good: "checked_acquisitions_succeed env w"
  shows "\<exists>w'. create_game env level_folder sound_sample_files sound_sample_files_count rend w =
                 Inr (nth_alloc_Game env, w') \<and>
               nth_alloc_Game env \<noteq> NULL \<and>
               (texture_from_bmp env = NULL \<longrightarrow>
                  games w' (nth_alloc_Game env) =
                    Some \<lparr>lt = hd (mallocs w), state = GAME_STATE_LEVEL_PICKER,
                          broadcast = create_broadcast env,
                          font = create_sprite_font_from_file env,
                          level_picker = create_level_picker env, level = NULL,
                          sound_samples = create_sound_samples env,
                          camera = create_camera env, console = create_console env,
                          renderer = rend, texture_cursor = NULL,
                          cursor_x = 0, cursor_y = 0\<rparr> \<and>
                  lts w' (hd (mallocs w)) = Some (take 7 (tl (mallocs w))) \<and>
                  calls (trace w') = calls (trace w))"
proof -
  from good obtain l m1 m2 m3 m4 m5 m6 m7 ms where
    ms: "mallocs w = l # m1 # m2 # m3 # m4 # m5 # m6 # m7 # ms"
    and nn: "l \<noteq> NULL" "m1 \<noteq> NULL" "m2 \<noteq> NULL" "m3 \<noteq> NULL" "m4 \<noteq> NULL" "m5 \<noteq> NULL"
      "m6 \<noteq> NULL" "m7 \<noteq> NULL"
    and rs: "nth_alloc_Game env \<noteq> NULL" "create_broadcast env \<noteq> NULL"
      "create_sprite_font_from_file env \<noteq> NULL" "create_level_picker env \<noteq> NULL"
      "create_sound_samples env \<noteq> NULL" "create_camera env \<noteq> NULL" "create_console env \<noteq> NULL"
    by (auto simp add: checked_acquisitions_succeed_def all_acquired_Cons split: list.splits)
  let ?g = "nth_alloc_Game env"
  let ?G = "(fresh_Game env)\<lparr>lt := l, state := GAME_STATE_LEVEL_PICKER,
                          broadcast := create_broadcast env,
                          font := create_sprite_font_from_file env,
                          level_picker := create_level_picker env, level := NULL,
                          sound_samples := create_sound_samples env,
                          camera := create_camera env, console := create_console env,
                          renderer := rend\<rparr>"
  define w8 where "w8 = w\<lparr>mallocs := ms,
      slots := (slots w)
        (m1 \<mapsto> \<lparr>resource = nth_alloc_Game env, resource_destroy = free_fn\<rparr>,
         m2 \<mapsto> \<lparr>resource = create_broadcast env, resource_destroy = destroy_broadcast_fn\<rparr>,
         m3 \<mapsto> \<lparr>resource = create_sprite_font_from_file env,
                  resource_destroy = destroy_sprite_font_fn\<rparr>,
         m4 \<mapsto> \<lparr>resource = create_level_picker env, resource_destroy = destroy_level_picker_fn\<rparr>,
         m5 \<mapsto> \<lparr>resource = create_sound_samples env,
                  resource_destroy = destroy_sound_samples_fn\<rparr>,
         m6 \<mapsto> \<lparr>resource = create_camera env, resource_destroy = destroy_camera_fn\<rparr>,
         m7 \<mapsto> \<lparr>resource = create_console env, resource_destroy = destroy_console_fn\<rparr>),
      lts := (lts w)(l \<mapsto> [m1, m2, m3, m4, m5, m6, m7]),
      games := (games w)(?g \<mapsto> ?G),
      trace := trace w @
        [Construct ''nth_alloc'', Printf ''LT: created slot\<newline>'',
         Construct ''create_broadcast'', Printf ''LT: created slot\<newline>'',
         Construct ''create_sprite_font_from_file'', Printf ''LT: created slot\<newline>'',
         Construct ''create_level_picker'', Printf ''LT: created slot\<newline>'',
         Construct ''create_sound_samples'', Printf ''LT: created slot\<newline>'',
         Construct ''create_camera'', Printf ''LT: created slot\<newline>'',
         Construct ''create_console'', Printf ''LT: created slot\<newline>'',
         Construct ''texture_from_bmp'']\<rparr>"
  have run: "create_game env level_folder sound_sample_files sound_sample_files_count rend w =
           (case lt_push l (texture_from_bmp env) SDL_DestroyTexture_fn w8 of
                Inl e \<Rightarrow> Inl e
              | Inr (h, w) \<Rightarrow>
                  Inr (?g,
                       set_game ?g (\<lambda>G. G\<lparr>cursor_x := 0, cursor_y := 0\<rparr>)
                         (set_game ?g (\<lambda>G. G\<lparr>texture_cursor := h\<rparr>) w)))"
    using lf ms nn rs
    by (simp add: create_game_def create_lt_def malloc_def acquire_def invoke_def PUSH_LT_def
        lt_push_succeeds release_fn_defs set_game_def w8_def)
  have l8: "lts w8 l = Some [m1, m2, m3, m4, m5, m6, m7]"
    and g8: "games w8 ?g = Some ?G" and c8: "calls (trace w8) = calls (trace w)"
    by (simp_all add: w8_def calls_append)
  have d: "SDL_DestroyTexture_fn \<noteq> NULL" by (simp add: release_fn_defs)
  from lt_push_total [OF l8 d, of "texture_from_bmp env"] obtain h w9 where
    push: "lt_push l (texture_from_bmp env) SDL_DestroyTexture_fn w8 = Inr (h, w9)"
    and g9: "games w9 = games w8" and null: "texture_from_bmp env = NULL \<longrightarrow> w9 = w8"
    and h: "h = NULL \<or> h = texture_from_bmp env"
    by auto
  have G: "?G\<lparr>texture_cursor := NULL, cursor_x := 0, cursor_y := 0\<rparr> =
             \<lparr>lt = l, state = GAME_STATE_LEVEL_PICKER,
                          broadcast = create_broadcast env,
                          font = create_sprite_font_from_file env,
                          level_picker = create_level_picker env, level = NULL,
                          sound_samples = create_sound_samples env,
                          camera = create_camera env, console = create_console env,
                          renderer = rend, texture_cursor = NULL,
                          cursor_x = 0, cursor_y = 0\<rparr>"
    by (cases "fresh_Game env") simp
  show ?thesis
    using run push null h rs(1) ms G l8 g8 c8
    by (auto simp add: set_game_def)
qed

text \<open>
  Claim C9. \<open>create_game\<close> with a non-null level folder returns. When the Lifetime is
  created and each of the seven checked acquisitions succeeds, it returns the non-null
  Game, whatever the cursor-texture constructor produced: if \<^verbatim>\<open>texture_from_bmp\<close> failed,
  the null handle went to tracking, the Game's \<open>texture_cursor\<close> is \<open>NULL\<close>, the Lifetime
  holds the seven Slots only and nothing was released. Otherwise (the Lifetime was not
  created, or one of the seven checked acquisitions failed) it returns \<open>NULL\<close> and the
  Lifetime is destroyed: no Slot and no Lifetime is left that was not there before.
\<close>

theorem create_game_leaves_cursor_unchecked:
  assumes "level_folder \<noteq> NULL" and "malloc_ok w"
  shows "\<exists>g w'. create_game env level_folder sound_sample_files sound_sample_files_count rend w =
                   Inr (g, w') \<and>
           (if checked_acquisitions_succeed env w
            then g = nth_alloc_Game env \<and> g \<noteq> NULL \<and>
                 (texture_from_bmp env = NULL \<longrightarrow>
                    games w' g =
                      Some \<lparr>lt = hd (mallocs w), state = GAME_STATE_LEVEL_PICKER,
                            broadcast = create_broadcast env,
                            font = create_sprite_font_from_file env,
                            level_picker = create_level_picker env, level = NULL,
                            sound_samples = create_sound_samples env,
                            camera = create_camera env, console = create_console env,
                            renderer = rend, texture_cursor = NULL,
                            cursor_x = 0, cursor_y = 0\<rparr> \<and>
                    lts w' (hd (mallocs w)) = Some (take 7 (tl (mallocs w))) \<and>
                    calls (trace w') = calls (trace w))
            else g = NULL \<and> slots w' = slots w \<and> lts w' = lts w)"
proof (cases "checked_acquisitions_succeed env w")
  case True
  with create_game_succeeds [OF assms(1) True, of sound_sample_files sound_sample_files_count rend]
  show ?thesis by auto
next
  case False
  with create_game_abandons [OF assms False, of sound_sample_files sound_sample_files_count rend]
  show ?thesis by (auto simp add: abandoned_def)
qed

theorem create_game_leaves_cursor_unchecked_witness:
  "(\<exists>g w'. create_game cursor_fails 50 51 2 52 startup_world = Inr (g, w') \<and> g = 100 \<and>
            (\<exists>G. games w' g = Some G \<and> texture_cursor G = NULL \<and> console G = 106) \<and>
            lts w' 20 = Some [1, 2, 3, 4, 5, 6, 7]) \<and>
   (\<exists>g w'. create_game (cursor_fails\<lparr>create_camera := NULL\<rparr>) 50 51 2 52 startup_world =
              Inr (g, w') \<and> g = NULL \<and> lts w' 20 = None)"
proof -
  have m: "malloc_ok startup_world"
    by (simp add: malloc_ok_def startup_world_def)
  have good: "checked_acquisitions_succeed cursor_fails startup_world"
    and bad: "\<not> checked_acquisitions_succeed (cursor_fails\<lparr>create_camera := NULL\<rparr>) startup_world"
    by (simp_all add: checked_acquisitions_succeed_def cursor_fails_def startup_world_def)
  have lf: "(50 :: ptr) \<noteq> NULL" by simp
  show ?thesis
    using create_game_leaves_cursor_unchecked [OF lf m, of cursor_fails 51 2 52]
      create_game_leaves_cursor_unchecked [OF lf m, of "cursor_fails\<lparr>create_camera := NULL\<rparr>" 51 2 52]
      good bad
    by (auto simp add: cursor_fails_def startup_world_def)
qed

end
